theory Spec2Isabelle
  imports Main "HOL-Library.Word"
begin

unbundle bit_operations_syntax

section \<open>Machine types and constants of pstream.c\<close>

text \<open>
  \<open>size_t\<close> and \<open>ssize_t\<close> are taken 64 bits wide (LP64); \<open>ssize_t\<close> values are read
  as two's complement through the signed comparisons \<open><s\<close> and \<open>\<le>s\<close>. Unsigned
  arithmetic wraps around, as it does in C.
\<close>

type_synonym byte = "8 word"
type_synonym uint32_t = "32 word"
type_synonym int32_t = "32 word"
type_synonym size_t = "64 word"
type_synonym ssize_t = "64 word"

definition PSTREAM_DESCRIPTOR_LENGTH :: nat where
  "PSTREAM_DESCRIPTOR_LENGTH = 0"

definition PSTREAM_DESCRIPTOR_CHANNEL :: nat where
  "PSTREAM_DESCRIPTOR_CHANNEL = 1"

definition PSTREAM_DESCRIPTOR_DELTA :: nat where
  "PSTREAM_DESCRIPTOR_DELTA = 2"

definition PSTREAM_DESCRIPTOR_MAX :: nat where
  "PSTREAM_DESCRIPTOR_MAX = 3"

text \<open>\<open>PSTREAM_DESCRIPTOR_MAX * sizeof(uint32_t)\<close>, a \<open>size_t\<close>.\<close>

definition PSTREAM_DESCRIPTOR_SIZE :: size_t where
  "PSTREAM_DESCRIPTOR_SIZE = of_nat PSTREAM_DESCRIPTOR_MAX * 4"

definition FRAME_SIZE_MAX :: uint32_t where
  "FRAME_SIZE_MAX = 1024 * 64"

subsection \<open>The descriptor as bytes\<close>

text \<open>
  \<open>pstream_descriptor\<close> is \<open>uint32_t[3]\<close>; both engines move it through the channel
  byte by byte, so the state keeps its twelve bytes. The host byte order is taken
  little-endian.
\<close>

type_synonym pstream_descriptor = "byte list"

definition uint32_bytes :: "uint32_t \<Rightarrow> byte list" where
  "uint32_bytes w = [ucast w, ucast (drop_bit 8 w), ucast (drop_bit 16 w), ucast (drop_bit 24 w)]"

definition bytes_uint32 :: "byte list \<Rightarrow> uint32_t" where
  "bytes_uint32 bs = foldr (\<lambda>b w. ucast b OR push_bit 8 w) bs 0"

definition descriptor_get :: "pstream_descriptor \<Rightarrow> nat \<Rightarrow> uint32_t" where
  "descriptor_get d k = bytes_uint32 (take 4 (drop (4 * k) d))"

definition descriptor_make :: "uint32_t \<Rightarrow> uint32_t \<Rightarrow> int32_t \<Rightarrow> pstream_descriptor" where
  "descriptor_make len chan delta = uint32_bytes len @ uint32_bytes chan @ uint32_bytes delta"

section \<open>Buffers, items and the stream\<close>

text \<open>
  \<open>struct packet\<close>, \<open>struct memblock\<close> and \<open>struct memchunk\<close> are declared outside
  pstream.c; they carry the fields pstream.c reads. A pointer field is an option,
  \<open>None\<close> being the null pointer.
\<close>

record packet =
  pk_length :: size_t
  pk_data :: "byte list"

record memblock =
  mb_length :: size_t
  mb_data :: "byte list"

record memchunk =
  chunk_memblock :: "memblock option"
  chunk_index :: size_t
  chunk_length :: size_t

datatype item_type = PSTREAM_ITEM_PACKET | PSTREAM_ITEM_MEMBLOCK

record item_info =
  i_type :: item_type
  i_chunk :: memchunk
  i_channel :: uint32_t
  i_delta :: int32_t
  i_packet :: "packet option"

datatype fault = Assert_failed | Out_of_bounds

text \<open>The calls the stream makes on its collaborators, in the order it makes them.\<close>

datatype event =
    Packet_new size_t
  | Memblock_new size_t
  | Packet_unref packet
  | Memblock_unref memblock
  | Iochannel_free
  | Mainloop_source_free
  | Send_callback
  | Recieve_packet_callback packet
  | Recieve_memblock_callback uint32_t int32_t memchunk

subsection \<open>The byte channel\<close>

text \<open>
  Modelled from the spec: iochannel.c is not part of the source under study. The
  spec gives the channel \<open>is_readable\<close>, \<open>is_writable\<close>,
  \<open>read(buffer, max_len) -> bytes_read_or_error\<close> and
  \<open>write(buffer, len) -> bytes_written_or_error\<close>. The record holds what the channel
  will do at the next call: fail, or move at most so many bytes; \<open>ch_wire\<close> collects
  the bytes written to the peer.
\<close>

datatype wr_reply = Wr_error | Wr_room nat
datatype rd_reply = Rd_error | Rd_bytes "byte list"

record iochannel =
  ch_writable :: bool
  ch_room :: wr_reply
  ch_readable :: bool
  ch_pending :: rd_reply
  ch_wire :: "byte list"

definition iochannel_is_writable :: "iochannel \<Rightarrow> bool" where
  "iochannel_is_writable c = ch_writable c"

definition iochannel_is_readable :: "iochannel \<Rightarrow> bool" where
  "iochannel_is_readable c = ch_readable c"

text \<open>
  \<open>iochannel_write c mem l\<close>: \<open>mem\<close> is the memory of the object the pointer \<open>d\<close>
  points into, from \<open>d\<close> to the object's end. The channel takes \<open>k \<le> l\<close> bytes;
  taking more than the object holds is a read out of bounds.
\<close>

definition iochannel_write ::
  "iochannel \<Rightarrow> byte list \<Rightarrow> size_t \<Rightarrow> fault + (ssize_t \<times> iochannel)" where
  "iochannel_write c mem l =
     (case ch_room c of
        Wr_error \<Rightarrow> Inr (- 1, c)
      | Wr_room n \<Rightarrow>
          (let k = min (unat l) n in
           if length mem < k then Inl Out_of_bounds
           else Inr (of_nat k, c\<lparr>ch_wire := ch_wire c @ take k mem, ch_room := Wr_room (n - k)\<rparr>)))"

text \<open>
  \<open>iochannel_read c l\<close> returns the count and the bytes the channel has placed at
  the pointer: at most \<open>l\<close> of the pending ones.
\<close>

definition iochannel_read :: "iochannel \<Rightarrow> size_t \<Rightarrow> ssize_t \<times> byte list \<times> iochannel" where
  "iochannel_read c l =
     (case ch_pending c of
        Rd_error \<Rightarrow> (- 1, [], c)
      | Rd_bytes bs \<Rightarrow>
          (let k = min (unat l) (length bs) in
           (of_nat k, take k bs, c\<lparr>ch_pending := Rd_bytes (drop k bs)\<rparr>)))"

subsection \<open>struct pstream\<close>

text \<open>
  \<open>mainloop_source\<close> is the enabled flag of the fixed main loop source. The three
  callback fields say whether a callback is registered; calling one appends to
  \<open>trace\<close>, as every call on a collaborator does. \<open>read_data\<close> says whose data the
  read pointer was last set to; the bytes themselves live in \<open>read_packet\<close> and
  \<open>read_memblock\<close>. \<open>write_data\<close> is the memory from the write pointer to the end of
  its buffer; a buffer's data pointer is never null here, so \<open>assert(p->write.data)\<close>
  cannot fail and has no branch.
\<close>

datatype data_ptr = Null | Packet_data | Memblock_data

record pstream =
  mainloop_source :: bool
  io :: iochannel
  send_queue :: "item_info list"
  dead :: bool
  write_current :: "item_info option"
  write_descriptor :: pstream_descriptor
  write_data :: "byte list"
  write_index :: size_t
  send_callback :: bool
  read_memblock :: "memblock option"
  read_packet :: "packet option"
  read_descriptor :: pstream_descriptor
  read_data :: data_ptr
  read_index :: size_t
  recieve_packet_callback :: bool
  recieve_memblock_callback :: bool
  trace :: "event list"

section \<open>Lifecycle and API\<close>

text \<open>
  \<open>malloc\<close> returns memory of indeterminate content: \<open>raw\<close> is that content, and
  each constructor assigns the fields the source assigns.
\<close>

definition pstream_new :: "pstream \<Rightarrow> iochannel \<Rightarrow> pstream" where
  "pstream_new raw c =
     raw\<lparr>io := c, dead := False, mainloop_source := False, send_queue := [],
         write_current := None, write_index := 0,
         read_memblock := None, read_packet := None, read_index := 0,
         send_callback := False, recieve_packet_callback := False,
         recieve_memblock_callback := False, trace := []\<rparr>"

definition item_free :: "item_info \<Rightarrow> fault + event" where
  "item_free i =
     (if i_type i = PSTREAM_ITEM_PACKET then
        (case chunk_memblock (i_chunk i) of
           None \<Rightarrow> Inl Assert_failed
         | Some m \<Rightarrow> Inr (Memblock_unref m))
      else
        (case i_packet i of
           None \<Rightarrow> Inl Assert_failed
         | Some pk \<Rightarrow> Inr (Packet_unref pk)))"

text \<open>
  Modelled from the spec: queue.c is not part of the source under study. The queue
  is a FIFO; its destruction frees all remaining items, from the head on, with the
  function it is given.
\<close>

fun queue_free :: "item_info list \<Rightarrow> (item_info \<Rightarrow> fault + event) \<Rightarrow> fault + event list" where
  "queue_free [] f = Inr []"
| "queue_free (i # q) f =
     (case f i of
        Inl e \<Rightarrow> Inl e
      | Inr ev \<Rightarrow> (case queue_free q f of Inl e \<Rightarrow> Inl e | Inr evs \<Rightarrow> Inr (ev # evs)))"

definition queue_push :: "item_info list \<Rightarrow> item_info \<Rightarrow> item_info list" where
  "queue_push q i = q @ [i]"

definition queue_is_empty :: "item_info list \<Rightarrow> bool" where
  "queue_is_empty q = (q = [])"

text \<open>\<open>pstream_free\<close> returns the calls it makes on the collaborators.\<close>

definition pstream_free :: "pstream \<Rightarrow> fault + event list" where
  "pstream_free p =
     (case queue_free (send_queue p) item_free of
        Inl e \<Rightarrow> Inl e
      | Inr evs \<Rightarrow>
          (case (case write_current p of
                   None \<Rightarrow> Inr []
                 | Some i \<Rightarrow> (case item_free i of Inl e \<Rightarrow> Inl e | Inr ev \<Rightarrow> Inr [ev])) of
             Inl e \<Rightarrow> Inl e
           | Inr wevs \<Rightarrow>
               Inr ([Iochannel_free] @ evs @ wevs
                    @ (case read_memblock p of None \<Rightarrow> [] | Some m \<Rightarrow> [Memblock_unref m])
                    @ (case read_packet p of None \<Rightarrow> [] | Some pk \<Rightarrow> [Packet_unref pk])
                    @ [Mainloop_source_free])))"

definition pstream_set_send_callback :: "pstream \<Rightarrow> pstream" where
  "pstream_set_send_callback p = p\<lparr>send_callback := True\<rparr>"

definition pstream_send_packet :: "item_info \<Rightarrow> pstream \<Rightarrow> packet \<Rightarrow> pstream" where
  "pstream_send_packet raw p pk =
     (let i = raw\<lparr>i_type := PSTREAM_ITEM_PACKET, i_packet := Some pk\<rparr>
      in p\<lparr>send_queue := queue_push (send_queue p) i, mainloop_source := True\<rparr>)"

definition pstream_send_memblock ::
  "item_info \<Rightarrow> pstream \<Rightarrow> uint32_t \<Rightarrow> int32_t \<Rightarrow> memchunk \<Rightarrow> fault + pstream" where
  "pstream_send_memblock raw p channel delta chunk =
     (if channel = 0 then Inl Assert_failed
      else
        (let i = raw\<lparr>i_type := PSTREAM_ITEM_MEMBLOCK, i_chunk := chunk,
                     i_channel := channel, i_delta := delta\<rparr>
         in Inr (p\<lparr>send_queue := queue_push (send_queue p) i, mainloop_source := True\<rparr>)))"

definition pstream_set_recieve_packet_callback :: "pstream \<Rightarrow> pstream" where
  "pstream_set_recieve_packet_callback p = p\<lparr>recieve_packet_callback := True\<rparr>"

definition pstream_set_recieve_memblock_callback :: "pstream \<Rightarrow> pstream" where
  "pstream_set_recieve_memblock_callback p = p\<lparr>recieve_memblock_callback := True\<rparr>"

section \<open>The write engine\<close>

definition prepare_next_write_item :: "pstream \<Rightarrow> fault + pstream" where
  "prepare_next_write_item p =
     (case send_queue p of
        [] \<Rightarrow> Inr (p\<lparr>write_current := None\<rparr>)
      | i # q \<Rightarrow>
          (let p1 = p\<lparr>write_current := Some i, send_queue := q, write_index := 0\<rparr> in
           if i_type i = PSTREAM_ITEM_PACKET then
             (case i_packet i of
                None \<Rightarrow> Inl Assert_failed
              | Some pk \<Rightarrow>
                  Inr (p1\<lparr>write_data := pk_data pk,
                          write_descriptor := descriptor_make (ucast (pk_length pk)) 0 0\<rparr>))
           else
             (case chunk_memblock (i_chunk i) of
                None \<Rightarrow> Inl Assert_failed
              | Some m \<Rightarrow>
                  Inr (p1\<lparr>write_data := drop (unat (chunk_index (i_chunk i))) (mb_data m),
                          write_descriptor :=
                            descriptor_make (ucast (chunk_length (i_chunk i)))
                              (i_channel i) (i_delta i)\<rparr>))))"

text \<open>The length \<open>l\<close> of the span \<open>do_write\<close> asks the channel to take (lines 245 to 251).\<close>

definition write_span_length :: "size_t \<Rightarrow> uint32_t \<Rightarrow> size_t" where
  "write_span_length index len =
     (if index < PSTREAM_DESCRIPTOR_SIZE then PSTREAM_DESCRIPTOR_SIZE - index
      else ucast len - index - PSTREAM_DESCRIPTOR_SIZE)"

text \<open>The memory at the pointer \<open>d\<close> of \<open>do_write\<close>.\<close>

definition write_span_memory :: "pstream \<Rightarrow> byte list" where
  "write_span_memory p =
     (if write_index p < PSTREAM_DESCRIPTOR_SIZE
      then drop (unat (write_index p)) (write_descriptor p)
      else drop (unat (write_index p - PSTREAM_DESCRIPTOR_SIZE)) (write_data p))"

text \<open>\<open>do_write\<close> from the test of the channel's result on (lines 253 to 267).\<close>

definition write_result :: "ssize_t \<Rightarrow> pstream \<Rightarrow> fault + pstream" where
  "write_result r p =
     (if r <s 0 then Inr (p\<lparr>dead := True\<rparr>)
      else
        (let p1 = p\<lparr>write_index := write_index p + r\<rparr> in
         if PSTREAM_DESCRIPTOR_SIZE
              + ucast (descriptor_get (write_descriptor p1) PSTREAM_DESCRIPTOR_LENGTH)
            \<le> write_index p1
         then
           (case write_current p1 of
              None \<Rightarrow> Inl Assert_failed
            | Some i \<Rightarrow>
                (case item_free i of
                   Inl e \<Rightarrow> Inl e
                 | Inr ev \<Rightarrow>
                     (let p2 = p1\<lparr>trace := trace p1 @ [ev], write_current := None\<rparr> in
                      if send_callback p2 \<and> queue_is_empty (send_queue p2)
                      then Inr (p2\<lparr>trace := trace p2 @ [Send_callback]\<rparr>)
                      else Inr p2)))
         else Inr p1))"

definition do_write :: "pstream \<Rightarrow> fault + pstream" where
  "do_write p =
     (let p0 = p\<lparr>mainloop_source := False\<rparr> in
      if dead p0 \<or> \<not> iochannel_is_writable (io p0) then Inr p0
      else
        (case (if write_current p0 = None then prepare_next_write_item p0 else Inr p0) of
           Inl e \<Rightarrow> Inl e
         | Inr p1 \<Rightarrow>
             if write_current p1 = None then Inr p1
             else
               (case iochannel_write (io p1) (write_span_memory p1)
                       (write_span_length (write_index p1)
                          (descriptor_get (write_descriptor p1) PSTREAM_DESCRIPTOR_LENGTH)) of
                  Inl e \<Rightarrow> Inl e
                | Inr (r, c) \<Rightarrow> write_result r (p1\<lparr>io := c\<rparr>))))"

section \<open>The read engine\<close>

text \<open>
  Modelled from the spec: packet.c and memblock.c are not part of the source under
  study. \<open>allocate(size)\<close> returns an owned buffer of that size; its bytes, which
  are indeterminate in C until the channel fills them, are zero here.
\<close>

definition packet_new :: "size_t \<Rightarrow> packet" where
  "packet_new n = \<lparr>pk_length = n, pk_data = replicate (unat n) 0\<rparr>"

definition memblock_new :: "size_t \<Rightarrow> memblock" where
  "memblock_new n = \<lparr>mb_length = n, mb_data = replicate (unat n) 0\<rparr>"

text \<open>The length \<open>l\<close> of the span \<open>do_read\<close> asks the channel to fill (lines 281 to 288).\<close>

definition read_span_length :: "size_t \<Rightarrow> uint32_t \<Rightarrow> size_t" where
  "read_span_length index len =
     (if index < PSTREAM_DESCRIPTOR_SIZE then PSTREAM_DESCRIPTOR_SIZE - index
      else ucast len - index - PSTREAM_DESCRIPTOR_SIZE)"

definition poke :: "byte list \<Rightarrow> nat \<Rightarrow> byte list \<Rightarrow> byte list" where
  "poke mem off bs = take off mem @ bs @ drop (off + length bs) mem"

text \<open>
  The bytes the channel has placed at the pointer \<open>d\<close> of \<open>do_read\<close>: into the
  descriptor, or into the data of the buffer \<open>read_data\<close> points to. Bytes beyond
  the end of that buffer are a write out of bounds.
\<close>

definition read_store :: "pstream \<Rightarrow> byte list \<Rightarrow> fault + pstream" where
  "read_store p bs =
     (if read_index p < PSTREAM_DESCRIPTOR_SIZE
      then Inr (p\<lparr>read_descriptor := poke (read_descriptor p) (unat (read_index p)) bs\<rparr>)
      else
        (let off = unat (read_index p - PSTREAM_DESCRIPTOR_SIZE) in
         case read_data p of
           Null \<Rightarrow> Inl Assert_failed
         | Packet_data \<Rightarrow>
             (case read_packet p of
                None \<Rightarrow> Inl Out_of_bounds
              | Some pk \<Rightarrow>
                  if length (pk_data pk) < off + length bs then Inl Out_of_bounds
                  else Inr (p\<lparr>read_packet := Some (pk\<lparr>pk_data := poke (pk_data pk) off bs\<rparr>)\<rparr>))
         | Memblock_data \<Rightarrow>
             (case read_memblock p of
                None \<Rightarrow> Inl Out_of_bounds
              | Some m \<Rightarrow>
                  if length (mb_data m) < off + length bs then Inl Out_of_bounds
                  else Inr (p\<lparr>read_memblock := Some (m\<lparr>mb_data := poke (mb_data m) off bs\<rparr>)\<rparr>))))"

text \<open>Reading of the frame descriptor complete (lines 298 to 318).\<close>

definition read_header_complete :: "pstream \<Rightarrow> fault + pstream" where
  "read_header_complete p =
     (let len = descriptor_get (read_descriptor p) PSTREAM_DESCRIPTOR_LENGTH in
      if FRAME_SIZE_MAX < len then Inr (p\<lparr>dead := True\<rparr>)
      else if read_packet p \<noteq> None \<or> read_memblock p \<noteq> None then Inl Assert_failed
      else if descriptor_get (read_descriptor p) PSTREAM_DESCRIPTOR_CHANNEL = 0 then
        Inr (p\<lparr>read_packet := Some (packet_new (ucast len)), read_data := Packet_data,
                trace := trace p @ [Packet_new (ucast len)]\<rparr>)
      else
        Inr (p\<lparr>read_memblock := Some (memblock_new (ucast len)), read_data := Memblock_data,
                trace := trace p @ [Memblock_new (ucast len)]\<rparr>))"

text \<open>The length of the chunk passed to the memblock callback (line 326).\<close>

definition deliver_length :: "size_t \<Rightarrow> ssize_t \<Rightarrow> size_t" where
  "deliver_length index r =
     (if index - r < PSTREAM_DESCRIPTOR_SIZE then index - PSTREAM_DESCRIPTOR_SIZE else r)"

text \<open>Frame payload available (lines 321 to 357).\<close>

definition read_payload :: "ssize_t \<Rightarrow> pstream \<Rightarrow> fault + pstream" where
  "read_payload r p =
     (let p1 =
        (if read_memblock p \<noteq> None \<and> recieve_memblock_callback p then
           (let l = deliver_length (read_index p) r in
            if 0 < l then
              p\<lparr>trace := trace p @
                  [Recieve_memblock_callback
                     (descriptor_get (read_descriptor p) PSTREAM_DESCRIPTOR_CHANNEL)
                     (descriptor_get (read_descriptor p) PSTREAM_DESCRIPTOR_DELTA)
                     \<lparr>chunk_memblock = read_memblock p,
                      chunk_index = read_index p - PSTREAM_DESCRIPTOR_SIZE - l,
                      chunk_length = l\<rparr>]\<rparr>
            else p)
         else p)
      in
      if ucast (descriptor_get (read_descriptor p1) PSTREAM_DESCRIPTOR_LENGTH)
           + PSTREAM_DESCRIPTOR_SIZE \<le> read_index p1
      then
        (case read_memblock p1 of
           Some m \<Rightarrow>
             if read_packet p1 \<noteq> None then Inl Assert_failed
             else Inr (p1\<lparr>trace := trace p1 @ [Memblock_unref m], read_memblock := None,
                          read_index := 0\<rparr>)
         | None \<Rightarrow>
             (case read_packet p1 of
                None \<Rightarrow> Inl Assert_failed
              | Some pk \<Rightarrow>
                  (let p2 = (if recieve_packet_callback p1
                             then p1\<lparr>trace := trace p1 @ [Recieve_packet_callback pk]\<rparr>
                             else p1)
                   in Inr (p2\<lparr>trace := trace p2 @ [Packet_unref pk], read_packet := None,
                              read_index := 0\<rparr>))))
      else Inr p1)"

text \<open>
  \<open>do_read\<close> from the test of the channel's result on (lines 290 to 358); \<open>bs\<close> are
  the bytes the channel has placed at the pointer.
\<close>

definition read_result :: "ssize_t \<Rightarrow> byte list \<Rightarrow> pstream \<Rightarrow> fault + pstream" where
  "read_result r bs p =
     (if r \<le>s 0 then Inr (p\<lparr>dead := True\<rparr>)
      else
        (case read_store p bs of
           Inl e \<Rightarrow> Inl e
         | Inr p1 \<Rightarrow>
             (let p2 = p1\<lparr>read_index := read_index p1 + r\<rparr> in
              if read_index p2 = PSTREAM_DESCRIPTOR_SIZE then read_header_complete p2
              else if PSTREAM_DESCRIPTOR_SIZE < read_index p2 then read_payload r p2
              else Inr p2)))"

definition do_read :: "pstream \<Rightarrow> fault + pstream" where
  "do_read p =
     (let p0 = p\<lparr>mainloop_source := False\<rparr> in
      if dead p0 \<or> \<not> iochannel_is_readable (io p0) then Inr p0
      else if \<not> read_index p0 < PSTREAM_DESCRIPTOR_SIZE \<and> read_data p0 = Null
      then Inl Assert_failed
      else
        (case iochannel_read (io p0)
                (read_span_length (read_index p0)
                   (descriptor_get (read_descriptor p0) PSTREAM_DESCRIPTOR_LENGTH)) of
           (r, bs, c) \<Rightarrow> read_result r bs (p0\<lparr>io := c\<rparr>)))"

definition io_callback :: "pstream \<Rightarrow> fault + pstream" where
  "io_callback p = (case do_write p of Inl e \<Rightarrow> Inl e | Inr p1 \<Rightarrow> do_read p1)"

definition prepare_callback :: "pstream \<Rightarrow> fault + pstream" where
  "prepare_callback p = (case do_write p of Inl e \<Rightarrow> Inl e | Inr p1 \<Rightarrow> do_read p1)"

section \<open>Runs\<close>

text \<open>
  What can happen to a stream, one call at a time: the API, the two engines, and the
  environment changing what the channel will do next (its wire stays as it is).
\<close>

datatype action =
    Do_write
  | Do_read
  | Send_packet item_info packet
  | Send_memblock item_info uint32_t int32_t memchunk
  | Set_send_callback
  | Set_recieve_packet_callback
  | Set_recieve_memblock_callback
  | Channel_ready bool wr_reply bool rd_reply

fun step :: "action \<Rightarrow> pstream \<Rightarrow> fault + pstream" where
  "step Do_write p = do_write p"
| "step Do_read p = do_read p"
| "step (Send_packet raw pk) p = Inr (pstream_send_packet raw p pk)"
| "step (Send_memblock raw channel delta chunk) p = pstream_send_memblock raw p channel delta chunk"
| "step Set_send_callback p = Inr (pstream_set_send_callback p)"
| "step Set_recieve_packet_callback p = Inr (pstream_set_recieve_packet_callback p)"
| "step Set_recieve_memblock_callback p = Inr (pstream_set_recieve_memblock_callback p)"
| "step (Channel_ready w room r pending) p =
     Inr (p\<lparr>io := (io p)\<lparr>ch_writable := w, ch_room := room,
                          ch_readable := r, ch_pending := pending\<rparr>\<rparr>)"

fun run :: "action list \<Rightarrow> pstream \<Rightarrow> fault + pstream" where
  "run [] p = Inr p"
| "run (a # as) p = (case step a p of Inl e \<Rightarrow> Inl e | Inr p1 \<Rightarrow> run as p1)"

text \<open>The write cursor and the read cursor.\<close>

definition cursors ::
  "pstream \<Rightarrow>
     (item_info option \<times> pstream_descriptor \<times> byte list \<times> size_t) \<times>
     (memblock option \<times> packet option \<times> pstream_descriptor \<times> data_ptr \<times> size_t)" where
  "cursors p =
     ((write_current p, write_descriptor p, write_data p, write_index p),
      (read_memblock p, read_packet p, read_descriptor p, read_data p, read_index p))"

text \<open>The count \<open>r\<close> that the channel returns to \<open>do_read\<close> in the state \<open>p\<close>.\<close>

definition read_count :: "pstream \<Rightarrow> ssize_t" where
  "read_count p =
     fst (iochannel_read (io p)
            (read_span_length (read_index p)
               (descriptor_get (read_descriptor p) PSTREAM_DESCRIPTOR_LENGTH)))"

text \<open>
  What holds of the read cursor in every state a new stream can reach: no buffer is
  held while the descriptor is being read, and a held buffer has fewer than \<open>2 ^ 32\<close>
  bytes.
\<close>

definition read_cursor_inv :: "pstream \<Rightarrow> bool" where
  "read_cursor_inv p =
     ((if read_index p < PSTREAM_DESCRIPTOR_SIZE
       then read_packet p = None \<and> read_memblock p = None else True) \<and>
      (case read_packet p of None \<Rightarrow> True | Some pk \<Rightarrow> length (pk_data pk) < 2 ^ 32) \<and>
      (case read_memblock p of None \<Rightarrow> True | Some m \<Rightarrow> length (mb_data m) < 2 ^ 32))"

text \<open>The events a call has added to the trace.\<close>

definition new_events :: "pstream \<Rightarrow> pstream \<Rightarrow> event list" where
  "new_events p p' = drop (length (trace p)) (trace p')"

fun is_unref :: "event \<Rightarrow> bool" where
  "is_unref (Packet_unref pk) = True"
| "is_unref (Memblock_unref m) = True"
| "is_unref ev = False"

text \<open>The bytes a chunk views, and the bytes the memblock callback has been shown.\<close>

definition chunk_bytes :: "memchunk \<Rightarrow> byte list" where
  "chunk_bytes ch =
     (case chunk_memblock ch of
        None \<Rightarrow> []
      | Some m \<Rightarrow> take (unat (chunk_length ch)) (drop (unat (chunk_index ch)) (mb_data m)))"

fun delivered_bytes :: "event list \<Rightarrow> byte list" where
  "delivered_bytes [] = []"
| "delivered_bytes (Recieve_memblock_callback channel delta ch # evs) =
     chunk_bytes ch @ delivered_bytes evs"
| "delivered_bytes (ev # evs) = delivered_bytes evs"

section \<open>Example inputs\<close>

definition zeroed_item :: item_info where
  "zeroed_item =
     \<lparr>i_type = PSTREAM_ITEM_PACKET,
      i_chunk = \<lparr>chunk_memblock = None, chunk_index = 0, chunk_length = 0\<rparr>,
      i_channel = 0, i_delta = 0, i_packet = None\<rparr>"

definition idle_channel :: iochannel where
  "idle_channel =
     \<lparr>ch_writable = False, ch_room = Wr_room 0, ch_readable = False,
      ch_pending = Rd_bytes [], ch_wire = []\<rparr>"

definition zeroed_stream :: pstream where
  "zeroed_stream =
     \<lparr>mainloop_source = False, io = idle_channel, send_queue = [], dead = False,
      write_current = None, write_descriptor = replicate 12 0, write_data = [],
      write_index = 0, send_callback = False, read_memblock = None, read_packet = None,
      read_descriptor = replicate 12 0, read_data = Null, read_index = 0,
      recieve_packet_callback = False, recieve_memblock_callback = False, trace = []\<rparr>"

definition fresh_stream :: pstream where
  "fresh_stream = pstream_new zeroed_stream idle_channel"

definition payload :: "nat \<Rightarrow> byte list" where
  "payload n = map of_nat [1..<Suc n]"

definition packet_of :: "nat \<Rightarrow> packet" where
  "packet_of n = \<lparr>pk_length = of_nat n, pk_data = payload n\<rparr>"

definition the_state :: "fault + pstream \<Rightarrow> pstream" where
  "the_state res = (case res of Inl e \<Rightarrow> zeroed_stream | Inr s \<Rightarrow> s)"

definition writable :: "nat \<Rightarrow> action" where
  "writable n = Channel_ready True (Wr_room n) False (Rd_bytes [])"

definition readable :: "byte list \<Rightarrow> action" where
  "readable bs = Channel_ready False (Wr_room 0) True (Rd_bytes bs)"

text \<open>One queued packet of 24 bytes, the channel ready to take 5 bytes.\<close>

definition pending_packet :: pstream where
  "pending_packet =
     the_state (run [Send_packet zeroed_item (packet_of 24), writable 5] fresh_stream)"

text \<open>A packet of 24 bytes and one of 3 bytes queued, the channel ready to take 1000 bytes.\<close>

definition two_packets :: pstream where
  "two_packets =
     the_state (run [Send_packet zeroed_item (packet_of 24),
                     Send_packet zeroed_item (packet_of 3), writable 1000] fresh_stream)"

text \<open>A memblock frame on the wire: channel 2, delta \<open>-5\<close>, \<open>n\<close> bytes of payload.\<close>

definition memblock_frame :: "nat \<Rightarrow> byte list" where
  "memblock_frame n = descriptor_make (of_nat n) 2 (- 5) @ payload n"

text \<open>A stream with the memblock callback registered and the bytes \<open>bs\<close> readable.\<close>

definition receiving :: "byte list \<Rightarrow> pstream" where
  "receiving bs = the_state (run [Set_recieve_memblock_callback, readable bs] fresh_stream)"

text \<open>A dead stream with two queued packets, and what is done to it afterwards.\<close>

definition killed :: pstream where
  "killed = two_packets\<lparr>dead := True\<rparr>"

definition after_death :: "action list" where
  "after_death =
     [Send_packet zeroed_item (packet_of 3), Set_recieve_memblock_callback, writable 100,
      Do_write, readable (memblock_frame 40), Do_read, Do_write]"

text \<open>
  The channel of \<open>pending_packet\<close> failing, and both streams with the packet taken
  from the queue.
\<close>

definition write_fails :: pstream where
  "write_fails = the_state (run [Channel_ready True Wr_error False (Rd_bytes [])] pending_packet)"

definition write_fails_item :: pstream where
  "write_fails_item =
     the_state (prepare_next_write_item (write_fails\<lparr>mainloop_source := False\<rparr>))"

definition pending_item :: pstream where
  "pending_item =
     the_state (prepare_next_write_item (pending_packet\<lparr>mainloop_source := False\<rparr>))"

text \<open>
  Streams whose channel holds the header of a frame of 65537 bytes, and of a packet
  of 3 bytes.
\<close>

definition oversized :: pstream where
  "oversized = receiving (descriptor_make 65537 2 0)"

definition packet_header :: pstream where
  "packet_header = receiving (descriptor_make 3 0 0)"

text \<open>The header of a memblock frame of 40 bytes read, and the chunk the next call delivers.\<close>

definition header_read :: pstream where
  "header_read = the_state (do_read (receiving (memblock_frame 40)))"

definition first_chunk :: memchunk where
  "first_chunk =
     \<lparr>chunk_memblock = Some \<lparr>mb_length = 40, mb_data = payload 16 @ replicate 24 0\<rparr>,
      chunk_index = 0, chunk_length = 16\<rparr>"

text \<open>
  The send callback registered and one packet of 3 bytes queued, its item made from
  zero-filled memory; the header has been written and the channel is ready to take
  the 3 bytes of payload.
\<close>

definition last_bytes_pending :: pstream where
  "last_bytes_pending =
     the_state (run [Set_send_callback, Send_packet zeroed_item (packet_of 3), writable 12,
                     Do_write, writable 3] fresh_stream)"

section \<open>The span of one transfer\<close>

text \<open>
  C1. The specification gives the span in the payload region as
  \<open>length - (offset - header_size)\<close>. With a payload of 100 bytes and the offset at
  the end of the header, 12, that is 100; both engines ask for 76.
\<close>

theorem span_length_at_payload_start:
  "write_span_length 12 100 = 76 \<and> read_span_length 12 100 = 76"
  by (simp add: write_span_length_def read_span_length_def PSTREAM_DESCRIPTOR_SIZE_def
      PSTREAM_DESCRIPTOR_MAX_def)

text \<open>
  In the payload region the span of the source is 24 bytes short of the remaining
  payload, modulo \<open>2 ^ 64\<close>.
\<close>

lemma write_span_length_payload:
  "PSTREAM_DESCRIPTOR_SIZE \<le> index \<Longrightarrow>
   write_span_length index len + 24 = ucast len - (index - PSTREAM_DESCRIPTOR_SIZE)"
  by (simp add: write_span_length_def PSTREAM_DESCRIPTOR_SIZE_def PSTREAM_DESCRIPTOR_MAX_def
      not_less [symmetric])

lemma read_span_length_payload:
  "PSTREAM_DESCRIPTOR_SIZE \<le> index \<Longrightarrow>
   read_span_length index len + 24 = ucast len - (index - PSTREAM_DESCRIPTOR_SIZE)"
  by (simp add: read_span_length_def PSTREAM_DESCRIPTOR_SIZE_def PSTREAM_DESCRIPTOR_MAX_def
      not_less [symmetric])

text \<open>
  C2. The specification has every queued item reach the peer, whole and in order. With a
  packet of 24 bytes queued before one of 3 bytes, the first call writes the
  header; from then on every call asks the channel to take 0 bytes and leaves the
  stream as it was: the wire holds the header alone, the payload is never written
  and the second packet never leaves the queue.
\<close>

theorem write_engine_stalls:
  "(case run [Do_write, Do_write] two_packets of
      Inl e \<Rightarrow> False
    | Inr p \<Rightarrow>
        do_write p = Inr p \<and> ch_wire (io p) = descriptor_make 24 0 0 \<and>
        write_index p = 12 \<and> length (send_queue p) = 1 \<and> \<not> dead p)"
  by code_simp

text \<open>
  C3. The specification has the chunks shown to the memblock callback add up to the whole
  payload. For a frame of 40 bytes, all of it readable, the first call reads the
  header, the second asks for 16 bytes and shows them to the callback, and the
  third asks for 0 bytes, is given 0 and marks the stream dead: the callback has
  seen the first 16 of the 40 bytes.
\<close>

theorem memblock_frame_cut_short:
  "(case run [Do_read, Do_read, Do_read] (receiving (memblock_frame 40)) of
      Inl e \<Rightarrow> False
    | Inr p \<Rightarrow> dead p \<and> delivered_bytes (trace p) = take 16 (payload 40))"
  by code_simp

section \<open>Releasing an item\<close>

text \<open>
  C5. The specification has every queued item's buffer reference released once when the
  stream is destroyed. A stream with one queued packet, made by
  \<open>pstream_send_packet\<close>, never releases that packet: \<open>item_free\<close> tests and
  releases the memblock field of a packet item, which \<open>pstream_send_packet\<close> has
  not assigned.
\<close>

theorem pstream_free_queued_packet:
  "pstream_free (pstream_send_packet raw (pstream_new rawp c) pk) =
     (case chunk_memblock (i_chunk raw) of
        None \<Rightarrow> Inl Assert_failed
      | Some m \<Rightarrow> Inr [Iochannel_free, Memblock_unref m, Mainloop_source_free])"
  by (simp add: pstream_free_def pstream_send_packet_def pstream_new_def queue_push_def
      item_free_def split: option.splits)

text \<open>A memblock item likewise has its packet field released, never its chunk's memblock.\<close>

lemma item_free_memblock_item:
  "item_free (raw\<lparr>i_type := PSTREAM_ITEM_MEMBLOCK, i_chunk := chunk, i_channel := channel,
                   i_delta := delta\<rparr>) =
     (case i_packet raw of
        None \<Rightarrow> Inl Assert_failed
      | Some pk \<Rightarrow> Inr (Packet_unref pk))"
  by (simp add: item_free_def)

lemma item_free_is_unref: "item_free i = Inr ev \<Longrightarrow> is_unref ev"
  unfolding item_free_def by (clarsimp split: if_splits option.splits)

section \<open>The scheduler hook\<close>


lemma prepare_next_write_item_frame:
  "prepare_next_write_item p = Inr p' \<Longrightarrow>
     trace p' = trace p \<and> send_callback p' = send_callback p \<and> io p' = io p \<and>
     mainloop_source p' = mainloop_source p \<and> dead p' = dead p"
  unfolding prepare_next_write_item_def Let_def
  by (clarsimp split: if_splits list.splits option.splits)


lemma read_store_frame:
  "read_store p bs = Inr p' \<Longrightarrow>
     read_index p' = read_index p \<and> io p' = io p \<and> trace p' = trace p \<and>
     dead p' = dead p \<and> mainloop_source p' = mainloop_source p"
  unfolding read_store_def Let_def
  by (clarsimp split: if_splits option.splits data_ptr.splits)

lemma read_header_complete_frame:
  "read_header_complete p = Inr p' \<Longrightarrow>
     read_index p' = read_index p \<and> io p' = io p \<and>
     read_descriptor p' = read_descriptor p \<and> mainloop_source p' = mainloop_source p"
  unfolding read_header_complete_def Let_def
  by (clarsimp split: if_splits)

lemma read_payload_frame:
  "read_payload r p = Inr p' \<Longrightarrow>
     io p' = io p \<and> dead p' = dead p \<and> read_descriptor p' = read_descriptor p \<and>
     mainloop_source p' = mainloop_source p \<and>
     (read_index p' = read_index p \<or>
      read_index p' = 0 \<and>
      ucast (descriptor_get (read_descriptor p) PSTREAM_DESCRIPTOR_LENGTH)
        + PSTREAM_DESCRIPTOR_SIZE \<le> read_index p)"
  unfolding read_payload_def Let_def
  by (clarsimp split: if_splits option.splits)






section \<open>The dead state\<close>

lemma do_write_dead: "dead p \<Longrightarrow> do_write p = Inr (p\<lparr>mainloop_source := False\<rparr>)"
  by (simp add: do_write_def)

lemma do_read_dead: "dead p \<Longrightarrow> do_read p = Inr (p\<lparr>mainloop_source := False\<rparr>)"
  by (simp add: do_read_def)

lemma step_dead:
  "dead p \<Longrightarrow> step a p = Inr p' \<Longrightarrow>
     dead p' \<and> ch_wire (io p') = ch_wire (io p) \<and> trace p' = trace p \<and>
     cursors p' = cursors p"
  by (cases a)
     (auto simp: do_write_dead do_read_dead pstream_send_packet_def pstream_send_memblock_def
        pstream_set_send_callback_def pstream_set_recieve_packet_callback_def
        pstream_set_recieve_memblock_callback_def cursors_def Let_def split: if_splits)

lemma run_dead:
  "dead p \<Longrightarrow> run acts p = Inr p' \<Longrightarrow>
     dead p' \<and> ch_wire (io p') = ch_wire (io p) \<and> trace p' = trace p \<and>
     cursors p' = cursors p"
proof (induction acts arbitrary: p)
  case Nil
  then show ?case by simp
next
  case (Cons a acts)
  from Cons.prems(2) obtain p1 where s: "step a p = Inr p1" and r: "run acts p1 = Inr p'"
    by (auto split: sum.splits)
  from step_dead [OF Cons.prems(1) s] Cons.IH [OF _ r] show ?case by simp
qed

text \<open>
  C9. On a dead stream each engine only disables the main loop source: the channel,
  the queue, both cursors and the trace stay as they are. Whatever is then done to
  the stream (items queued, callbacks registered, the channel becoming ready, the
  engines entered), it stays dead, nothing more is written to the wire, no callback
  is called and the cursors never move, so an item queued after death is never
  taken from the queue.
\<close>

theorem dead_stream_is_inert:
  assumes "dead p"
  shows "do_write p = Inr (p\<lparr>mainloop_source := False\<rparr>) \<and>
         do_read p = Inr (p\<lparr>mainloop_source := False\<rparr>) \<and>
         (\<forall>acts p'. run acts p = Inr p' \<longrightarrow>
            dead p' \<and> ch_wire (io p') = ch_wire (io p) \<and> trace p' = trace p \<and>
            cursors p' = cursors p)"
  using assms by (simp add: do_write_dead do_read_dead run_dead)

theorem dead_stream_is_inert_witness:
  "dead killed \<and>
   do_write killed = Inr (killed\<lparr>mainloop_source := False\<rparr>) \<and>
   do_read killed = Inr (killed\<lparr>mainloop_source := False\<rparr>) \<and>
   run after_death killed = Inr (the_state (run after_death killed)) \<and>
   length (send_queue (the_state (run after_death killed))) = 3 \<and>
   dead (the_state (run after_death killed)) \<and>
   ch_wire (io (the_state (run after_death killed))) = ch_wire (io killed) \<and>
   trace (the_state (run after_death killed)) = trace killed \<and>
   cursors (the_state (run after_death killed)) = cursors killed"
proof -
  have d: "dead killed" by (simp add: killed_def)
  have r: "run after_death killed = Inr (the_state (run after_death killed))"
    by code_simp
  have q: "length (send_queue (the_state (run after_death killed))) = 3"
    by code_simp
  from dead_stream_is_inert [OF d] d r q show ?thesis by blast
qed

section \<open>The result of a transfer\<close>

lemma write_result_negative: "r <s 0 \<Longrightarrow> write_result r p = Inr (p\<lparr>dead := True\<rparr>)"
  by (simp add: write_result_def)

lemma write_result_advances:
  "\<not> r <s 0 \<Longrightarrow> write_result r p = Inr p' \<Longrightarrow>
     write_index p' = write_index p + r \<and> dead p' = dead p \<and> io p' = io p"
  unfolding write_result_def Let_def
  by (clarsimp split: if_splits option.splits sum.splits)

lemma read_result_nonpositive: "r \<le>s 0 \<Longrightarrow> read_result r bs p = Inr (p\<lparr>dead := True\<rparr>)"
  by (simp add: read_result_def)

lemma read_result_advances:
  assumes "\<not> r \<le>s 0" and "read_result r bs p = Inr p'"
  shows "io p' = io p \<and>
     (read_index p' = read_index p + r \<or>
      read_index p' = 0 \<and>
      ucast (descriptor_get (read_descriptor p') PSTREAM_DESCRIPTOR_LENGTH) + PSTREAM_DESCRIPTOR_SIZE
        \<le> read_index p + r)"
proof -
  from assms obtain p1 where s: "read_store p bs = Inr p1"
    by (cases "read_store p bs") (simp_all add: read_result_def)
  let ?p2 = "p1\<lparr>read_index := read_index p1 + r\<rparr>"
  from read_store_frame [OF s] have i: "read_index p1 = read_index p" "io p1 = io p" by simp_all
  from assms s have "read_header_complete ?p2 = Inr p' \<or> read_payload r ?p2 = Inr p' \<or> p' = ?p2"
    unfolding read_result_def Let_def by (simp split: if_splits)
  then consider
      (h) "read_header_complete ?p2 = Inr p'"
    | (pl) "read_payload r ?p2 = Inr p'"
    | (n) "p' = ?p2"
    by blast
  then show ?thesis
  proof cases
    case h
    from read_header_complete_frame [OF h] i show ?thesis by simp
  next
    case pl
    from read_payload_frame [OF pl] i show ?thesis by auto
  next
    case n
    with i show ?thesis by simp
  qed
qed


text \<open>
  C8. A write on the channel that returns a negative count marks the stream dead;
  one that returns 0 or more adds the count to the write index, and the engine
  returns having called the channel once. A read that returns 0 or less marks the
  stream dead; only a positive count is added to the read index, which is then
  reset to 0 if the frame is complete.
\<close>

theorem io_result_classification:
  "(\<not> dead p \<longrightarrow> iochannel_is_writable (io p) \<longrightarrow>
      (if write_current p = None then prepare_next_write_item (p\<lparr>mainloop_source := False\<rparr>)
       else Inr (p\<lparr>mainloop_source := False\<rparr>)) = Inr p1 \<longrightarrow>
      write_current p1 \<noteq> None \<longrightarrow>
      iochannel_write (io p1) (write_span_memory p1)
        (write_span_length (write_index p1)
           (descriptor_get (write_descriptor p1) PSTREAM_DESCRIPTOR_LENGTH)) = Inr (r, c) \<longrightarrow>
      (r <s 0 \<longrightarrow> do_write p = Inr (p1\<lparr>io := c, dead := True\<rparr>)) \<and>
      (\<not> r <s 0 \<longrightarrow> do_write p = Inr p' \<longrightarrow>
         \<not> dead p' \<and> write_index p' = write_index p1 + r \<and> io p' = c))
   \<and>
   (\<not> dead p \<longrightarrow> iochannel_is_readable (io p) \<longrightarrow>
      iochannel_read (io p)
        (read_span_length (read_index p)
           (descriptor_get (read_descriptor p) PSTREAM_DESCRIPTOR_LENGTH)) = (r, bs, c) \<longrightarrow>
      (r \<le>s 0 \<longrightarrow> do_read p = Inr p' \<longrightarrow>
         p' = p\<lparr>mainloop_source := False, io := c, dead := True\<rparr>) \<and>
      (\<not> r \<le>s 0 \<longrightarrow> do_read p = Inr p' \<longrightarrow>
         io p' = c \<and>
         (read_index p' = read_index p + r \<or>
          read_index p' = 0 \<and>
          ucast (descriptor_get (read_descriptor p') PSTREAM_DESCRIPTOR_LENGTH)
            + PSTREAM_DESCRIPTOR_SIZE \<le> read_index p + r)))"
proof (intro conjI impI)
  assume a: "\<not> dead p" "iochannel_is_writable (io p)"
    "(if write_current p = None then prepare_next_write_item (p\<lparr>mainloop_source := False\<rparr>)
       else Inr (p\<lparr>mainloop_source := False\<rparr>)) = Inr p1"
    "write_current p1 \<noteq> None"
    "iochannel_write (io p1) (write_span_memory p1)
        (write_span_length (write_index p1)
           (descriptor_get (write_descriptor p1) PSTREAM_DESCRIPTOR_LENGTH)) = Inr (r, c)"
  from a(4) obtain i where i: "write_current p1 = Some i" by blast
  from a(1,2,3,5) i have w: "do_write p = write_result r (p1\<lparr>io := c\<rparr>)"
    by (simp add: do_write_def Let_def)
  have d1: "\<not> dead p1"
    using a(1,3) unfolding prepare_next_write_item_def Let_def
    by (clarsimp split: if_splits list.splits option.splits)
  { assume "r <s 0"
    then show "do_write p = Inr (p1\<lparr>io := c, dead := True\<rparr>)"
      by (simp add: w write_result_negative) }
  { assume n: "\<not> r <s 0" and r: "do_write p = Inr p'"
    from write_result_advances [OF n r [unfolded w]] d1
    show "\<not> dead p'" "write_index p' = write_index p1 + r" "io p' = c" by simp_all }
next
  assume a: "\<not> dead p" "iochannel_is_readable (io p)"
    "iochannel_read (io p)
        (read_span_length (read_index p)
           (descriptor_get (read_descriptor p) PSTREAM_DESCRIPTOR_LENGTH)) = (r, bs, c)"
    and r: "do_read p = Inr p'"
  from a r have rr: "read_result r bs (p\<lparr>mainloop_source := False, io := c\<rparr>) = Inr p'"
    by (simp add: do_read_def Let_def split: if_splits)
  { assume "r \<le>s 0"
    with rr show "p' = p\<lparr>mainloop_source := False, io := c, dead := True\<rparr>"
      by (simp add: read_result_nonpositive) }
  { assume n: "\<not> r \<le>s 0"
    from read_result_advances [OF n rr]
    show "io p' = c"
      and "read_index p' = read_index p + r \<or>
          read_index p' = 0 \<and>
          ucast (descriptor_get (read_descriptor p') PSTREAM_DESCRIPTOR_LENGTH)
            + PSTREAM_DESCRIPTOR_SIZE \<le> read_index p + r"
      by simp_all }
qed


theorem io_result_classification_witness:
  "do_write write_fails = Inr (write_fails_item\<lparr>dead := True\<rparr>) \<and>
   \<not> dead (the_state (do_write pending_packet)) \<and>
   write_index (the_state (do_write pending_packet)) = 5 \<and>
   ch_wire (io (the_state (do_write pending_packet))) = [24, 0, 0, 0, 0] \<and>
   the_state (do_read (receiving [])) =
     (receiving [])\<lparr>mainloop_source := False, dead := True\<rparr> \<and>
   (read_index (the_state (do_read (receiving (memblock_frame 40)))) =
      read_index (receiving (memblock_frame 40)) + 12 \<or>
    read_index (the_state (do_read (receiving (memblock_frame 40)))) = 0 \<and>
    ucast (descriptor_get (read_descriptor (the_state (do_read (receiving (memblock_frame 40)))))
             PSTREAM_DESCRIPTOR_LENGTH) + PSTREAM_DESCRIPTOR_SIZE
      \<le> read_index (receiving (memblock_frame 40)) + 12) \<and>
   read_index (the_state (do_read (receiving (memblock_frame 40)))) = 12"
proof -
  have w1: "\<not> dead write_fails" "iochannel_is_writable (io write_fails)"
    "(if write_current write_fails = None
      then prepare_next_write_item (write_fails\<lparr>mainloop_source := False\<rparr>)
      else Inr (write_fails\<lparr>mainloop_source := False\<rparr>)) = Inr write_fails_item"
    "write_current write_fails_item \<noteq> None"
    "iochannel_write (io write_fails_item) (write_span_memory write_fails_item)
       (write_span_length (write_index write_fails_item)
          (descriptor_get (write_descriptor write_fails_item) PSTREAM_DESCRIPTOR_LENGTH))
     = Inr (- 1, io write_fails_item)"
    by code_simp+
  have n: "(- 1 :: 64 word) <s 0" by simp
  have e: "write_fails_item\<lparr>io := io write_fails_item, dead := True\<rparr>
      = write_fails_item\<lparr>dead := True\<rparr>" by simp
  have a: "do_write write_fails = Inr (write_fails_item\<lparr>dead := True\<rparr>)"
    using io_result_classification
      [where p = write_fails and ?p1.0 = write_fails_item and r = "- 1"
        and c = "io write_fails_item"] w1 n e
    by simp
  have w2: "\<not> dead pending_packet" "iochannel_is_writable (io pending_packet)"
    "(if write_current pending_packet = None
      then prepare_next_write_item (pending_packet\<lparr>mainloop_source := False\<rparr>)
      else Inr (pending_packet\<lparr>mainloop_source := False\<rparr>)) = Inr pending_item"
    "write_current pending_item \<noteq> None"
    "iochannel_write (io pending_item) (write_span_memory pending_item)
       (write_span_length (write_index pending_item)
          (descriptor_get (write_descriptor pending_item) PSTREAM_DESCRIPTOR_LENGTH))
     = Inr (5, io (the_state (do_write pending_packet)))"
    "do_write pending_packet = Inr (the_state (do_write pending_packet))"
    "write_index pending_item = 0"
    "ch_wire (io (the_state (do_write pending_packet))) = [24, 0, 0, 0, 0]"
    by code_simp+
  have m: "\<not> (5 :: 64 word) <s 0" by (simp add: word_sless_alt)
  have b: "\<not> dead (the_state (do_write pending_packet)) \<and>
      write_index (the_state (do_write pending_packet)) = 5"
    using io_result_classification
      [where p = pending_packet and ?p1.0 = pending_item and r = 5
        and c = "io (the_state (do_write pending_packet))"
        and p' = "the_state (do_write pending_packet)"] w2 m
    by simp
  have r1: "\<not> dead (receiving [])" "iochannel_is_readable (io (receiving []))"
    "iochannel_read (io (receiving []))
        (read_span_length (read_index (receiving []))
           (descriptor_get (read_descriptor (receiving [])) PSTREAM_DESCRIPTOR_LENGTH))
      = (0, [], io (receiving []))"
    "do_read (receiving []) = Inr (the_state (do_read (receiving [])))"
    by code_simp+
  have z: "(0 :: 64 word) \<le>s 0" by simp
  have c: "the_state (do_read (receiving [])) =
     (receiving [])\<lparr>mainloop_source := False, dead := True\<rparr>"
    using io_result_classification
      [where p = "receiving []" and r = 0 and bs = "[]" and c = "io (receiving [])"
        and p' = "the_state (do_read (receiving []))"] r1 z
    by simp
  have r2: "\<not> dead (receiving (memblock_frame 40))"
    "iochannel_is_readable (io (receiving (memblock_frame 40)))"
    "iochannel_read (io (receiving (memblock_frame 40)))
        (read_span_length (read_index (receiving (memblock_frame 40)))
           (descriptor_get (read_descriptor (receiving (memblock_frame 40)))
              PSTREAM_DESCRIPTOR_LENGTH))
      = (12, take 12 (memblock_frame 40), io (the_state (do_read (receiving (memblock_frame 40)))))"
    "do_read (receiving (memblock_frame 40)) =
       Inr (the_state (do_read (receiving (memblock_frame 40))))"
    "read_index (the_state (do_read (receiving (memblock_frame 40)))) = 12"
    by code_simp+
  have k: "\<not> (12 :: 64 word) \<le>s 0" by (simp add: word_sle_eq)
  have d: "read_index (the_state (do_read (receiving (memblock_frame 40)))) =
      read_index (receiving (memblock_frame 40)) + 12 \<or>
    read_index (the_state (do_read (receiving (memblock_frame 40)))) = 0 \<and>
    ucast (descriptor_get (read_descriptor (the_state (do_read (receiving (memblock_frame 40)))))
             PSTREAM_DESCRIPTOR_LENGTH) + PSTREAM_DESCRIPTOR_SIZE
      \<le> read_index (receiving (memblock_frame 40)) + 12"
    using io_result_classification
      [where p = "receiving (memblock_frame 40)" and r = 12
        and bs = "take 12 (memblock_frame 40)"
        and c = "io (the_state (do_read (receiving (memblock_frame 40))))"
        and p' = "the_state (do_read (receiving (memblock_frame 40)))"] r2(1-4) k
    by simp
  from a b c d w2(8) r2(5) show ?thesis by simp
qed

section \<open>Incremental delivery\<close>

lemma iochannel_read_bound:
  assumes "iochannel_read c l = (r, bs, c')" and "\<not> r \<le>s 0"
  shows "unat r \<le> unat l"
proof (cases "ch_pending c")
  case Rd_error
  with assms show ?thesis by (auto simp: iochannel_read_def)
next
  case (Rd_bytes xs)
  let ?k = "min (unat l) (length xs)"
  from assms Rd_bytes have r: "r = of_nat ?k" by (simp add: iochannel_read_def Let_def)
  have "?k \<le> unat l" by simp
  moreover have "unat (of_nat ?k :: 64 word) \<le> ?k"
    by (simp only: unat_of_nat mod_less_eq_dividend)
  ultimately show ?thesis unfolding r by linarith
qed

lemma header_span_no_straddle:
  assumes "index < PSTREAM_DESCRIPTOR_SIZE" and "unat r \<le> unat (PSTREAM_DESCRIPTOR_SIZE - index)"
  shows "index + r \<le> PSTREAM_DESCRIPTOR_SIZE"
  using assms unfolding PSTREAM_DESCRIPTOR_SIZE_def PSTREAM_DESCRIPTOR_MAX_def by unat_arith

lemma read_header_complete_events:
  "read_header_complete p = Inr p' \<Longrightarrow>
     Recieve_memblock_callback channel delta ch \<notin> set (new_events p p')"
  unfolding read_header_complete_def Let_def new_events_def
  by (clarsimp split: if_splits)

lemma read_payload_events:
  "read_payload r p = Inr p' \<Longrightarrow>
     Recieve_memblock_callback channel delta ch \<in> set (new_events p p') \<Longrightarrow>
     chunk_length ch = deliver_length (read_index p) r"
  unfolding read_payload_def Let_def new_events_def
  by (clarsimp split: if_splits option.splits)

text \<open>Only a frame held in a memblock is shown to the memblock callback.\<close>

lemma read_payload_delivers_memblock:
  "read_payload r p = Inr p' \<Longrightarrow>
     Recieve_memblock_callback channel delta ch \<in> set (new_events p p') \<Longrightarrow>
     read_memblock p \<noteq> None \<and> chunk_memblock ch = read_memblock p"
  unfolding read_payload_def Let_def new_events_def
  by (clarsimp split: if_splits option.splits)

lemma delivery_past_header:
  assumes "do_read p = Inr p'"
    and "Recieve_memblock_callback channel delta ch \<in> set (new_events p p')"
  shows "PSTREAM_DESCRIPTOR_SIZE \<le> read_index p \<and>
         chunk_length ch = read_count p \<and>
         \<not> (read_index p + read_count p - read_count p < PSTREAM_DESCRIPTOR_SIZE) \<and>
         deliver_length (read_index p + read_count p) (read_count p) = read_count p"
proof -
  let ?l = "read_span_length (read_index p)
               (descriptor_get (read_descriptor p) PSTREAM_DESCRIPTOR_LENGTH)"
  obtain r bs c where io: "iochannel_read (io p) ?l = (r, bs, c)"
    by (cases "iochannel_read (io p) ?l") 
  then have rc: "read_count p = r" by (simp add: read_count_def)
  let ?p0 = "p\<lparr>mainloop_source := False, io := c\<rparr>"
  have ne: "new_events p p \<noteq> x # xs" for x xs by (simp add: new_events_def)
  from assms have live: "\<not> dead p" "iochannel_is_readable (io p)"
    by (auto simp: do_read_def Let_def new_events_def split: if_splits)
  with assms(1) io have rr: "read_result r bs ?p0 = Inr p'"
    by (simp add: do_read_def Let_def split: if_splits)
  have pos: "\<not> r \<le>s 0"
  proof
    assume "r \<le>s 0"
    with rr have "p' = ?p0\<lparr>dead := True\<rparr>" by (simp add: read_result_def)
    with assms(2) show False by (simp add: new_events_def)
  qed
  from rr pos obtain p1 where s: "read_store ?p0 bs = Inr p1"
    by (cases "read_store ?p0 bs") (simp_all add: read_result_def)
  from read_store_frame [OF s] have p1: "read_index p1 = read_index p" "trace p1 = trace p"
    by simp_all
  let ?p2 = "p1\<lparr>read_index := read_index p1 + r\<rparr>"
  have ev: "new_events p q = new_events ?p2 q" for q
    by (simp add: new_events_def p1)
  from rr pos s have "read_header_complete ?p2 = Inr p' \<or>
      (PSTREAM_DESCRIPTOR_SIZE < read_index ?p2 \<and> read_payload r ?p2 = Inr p') \<or> p' = ?p2"
    unfolding read_result_def Let_def by (simp split: if_splits)
  then consider (h) "read_header_complete ?p2 = Inr p'"
    | (pl) "PSTREAM_DESCRIPTOR_SIZE < read_index ?p2" "read_payload r ?p2 = Inr p'"
    | (n) "p' = ?p2"
    by blast
  then show ?thesis
  proof cases
    case h
    from read_header_complete_events [OF h] assms(2) show ?thesis by (simp add: ev)
  next
    case pl
    have past: "PSTREAM_DESCRIPTOR_SIZE \<le> read_index p"
    proof (rule ccontr)
      assume "\<not> PSTREAM_DESCRIPTOR_SIZE \<le> read_index p"
      then have lt: "read_index p < PSTREAM_DESCRIPTOR_SIZE" by simp
      then have "?l = PSTREAM_DESCRIPTOR_SIZE - read_index p" by (simp add: read_span_length_def)
      with iochannel_read_bound [OF io pos]
      have "unat r \<le> unat (PSTREAM_DESCRIPTOR_SIZE - read_index p)" by simp
      from header_span_no_straddle [OF lt this] pl(1) p1 show False by simp
    qed
    from read_payload_events [OF pl(2)] assms(2)
    have "chunk_length ch = deliver_length (read_index p + r) r" by (simp add: ev p1)
    moreover from past have "\<not> read_index p < PSTREAM_DESCRIPTOR_SIZE" by (simp add: not_less)
    ultimately show ?thesis using past by (simp add: rc deliver_length_def)
  next
    case n
    with assms(2) show ?thesis by (simp add: new_events_def p1)
  qed
qed



lemma header_read_stays_in_header:
  assumes "do_read p = Inr p'" and lt: "read_index p < PSTREAM_DESCRIPTOR_SIZE"
  shows "read_index p' \<le> PSTREAM_DESCRIPTOR_SIZE"
proof (cases "dead p \<or> \<not> iochannel_is_readable (io p)")
  case True
  with assms(1) have "p' = p\<lparr>mainloop_source := False\<rparr>" by (auto simp: do_read_def Let_def)
  with lt show ?thesis by simp
next
  case live: False
  let ?l = "read_span_length (read_index p)
               (descriptor_get (read_descriptor p) PSTREAM_DESCRIPTOR_LENGTH)"
  obtain r bs c where io: "iochannel_read (io p) ?l = (r, bs, c)"
    by (cases "iochannel_read (io p) ?l")
  let ?p0 = "p\<lparr>mainloop_source := False, io := c\<rparr>"
  from assms live io have rr: "read_result r bs ?p0 = Inr p'"
    by (simp add: do_read_def Let_def)
  show ?thesis
  proof (cases "r \<le>s 0")
    case True
    with rr have "p' = ?p0\<lparr>dead := True\<rparr>" by (simp add: read_result_def)
    with lt show ?thesis by simp
  next
    case pos: False
    from rr pos obtain p1 where s: "read_store ?p0 bs = Inr p1"
      by (cases "read_store ?p0 bs") (simp_all add: read_result_def)
    from read_store_frame [OF s] have p1: "read_index p1 = read_index p" by simp
    let ?p2 = "p1\<lparr>read_index := read_index p1 + r\<rparr>"
    from lt have "?l = PSTREAM_DESCRIPTOR_SIZE - read_index p" by (simp add: read_span_length_def)
    with iochannel_read_bound [OF io pos]
    have "unat r \<le> unat (PSTREAM_DESCRIPTOR_SIZE - read_index p)" by simp
    from header_span_no_straddle [OF lt this]
    have le: "read_index ?p2 \<le> PSTREAM_DESCRIPTOR_SIZE" by (simp add: p1)
    then have nlt: "\<not> PSTREAM_DESCRIPTOR_SIZE < read_index ?p2" by (simp add: not_less)
    from rr pos s nlt have "read_header_complete ?p2 = Inr p' \<or> p' = ?p2"
      unfolding read_result_def Let_def by (simp split: if_splits)
    then show ?thesis
    proof
      assume "read_header_complete ?p2 = Inr p'"
      from read_header_complete_frame [OF this] le show ?thesis by simp
    next
      assume "p' = ?p2"
      with le show ?thesis by simp
    qed
  qed
qed

text \<open>
  C10. A read that starts inside the header ends at most at the end of the header,
  the channel returning no more than the span it is asked for. So whenever
  \<open>do_read\<close> calls the memblock callback, the read index was at or past 12 before
  the read, the chunk's length is the count \<open>r\<close> the channel returned, and the test
  \<open>index - r < 12\<close> of line 326 is false.
\<close>

theorem memblock_delivery_within_payload:
  "(do_read p = Inr p' \<longrightarrow> read_index p < PSTREAM_DESCRIPTOR_SIZE \<longrightarrow>
      read_index p' \<le> PSTREAM_DESCRIPTOR_SIZE) \<and>
   (do_read p = Inr p' \<longrightarrow>
    Recieve_memblock_callback channel delta ch \<in> set (new_events p p') \<longrightarrow>
      PSTREAM_DESCRIPTOR_SIZE \<le> read_index p \<and>
      chunk_length ch = read_count p \<and>
      \<not> (read_index p + read_count p - read_count p < PSTREAM_DESCRIPTOR_SIZE) \<and>
      deliver_length (read_index p + read_count p) (read_count p) = read_count p)"
  using header_read_stays_in_header delivery_past_header by blast

theorem memblock_delivery_within_payload_witness:
  "do_read (receiving (memblock_frame 40)) = Inr header_read \<and>
   read_index header_read \<le> PSTREAM_DESCRIPTOR_SIZE \<and>
   do_read header_read = Inr (the_state (do_read header_read)) \<and>
   new_events header_read (the_state (do_read header_read)) =
     [Recieve_memblock_callback 2 (- 5) first_chunk] \<and>
   PSTREAM_DESCRIPTOR_SIZE \<le> read_index header_read \<and>
   chunk_length first_chunk = read_count header_read \<and>
   deliver_length (read_index header_read + read_count header_read) (read_count header_read)
     = read_count header_read"
proof -
  have h: "do_read (receiving (memblock_frame 40)) = Inr header_read"
    "read_index (receiving (memblock_frame 40)) < PSTREAM_DESCRIPTOR_SIZE"
    "do_read header_read = Inr (the_state (do_read header_read))"
    "new_events header_read (the_state (do_read header_read)) =
       [Recieve_memblock_callback 2 (- 5) first_chunk]"
    by code_simp+
  from h(4) have i: "Recieve_memblock_callback 2 (- 5) first_chunk
      \<in> set (new_events header_read (the_state (do_read header_read)))"
    by simp
  from memblock_delivery_within_payload
    [of "receiving (memblock_frame 40)" header_read] h(1,2)
  have a: "read_index header_read \<le> PSTREAM_DESCRIPTOR_SIZE" by blast
  from memblock_delivery_within_payload
    [of header_read "the_state (do_read header_read)" 2 "- 5" first_chunk] h(3) i
  have b: "PSTREAM_DESCRIPTOR_SIZE \<le> read_index header_read \<and>
      chunk_length first_chunk = read_count header_read \<and>
      deliver_length (read_index header_read + read_count header_read) (read_count header_read)
        = read_count header_read"
    by blast
  from h a b show ?thesis by blast
qed

section \<open>The completed descriptor\<close>

text \<open>
  The read cursor of a stream made by \<open>pstream_new\<close> holds no buffer while it is
  inside the header, whatever has been done to the stream since.
\<close>

lemma iochannel_read_length:
  assumes "iochannel_read c l = (r, bs, c')" and "\<not> r \<le>s 0"
  shows "length bs = unat r"
proof (cases "ch_pending c")
  case Rd_error
  with assms show ?thesis by (auto simp: iochannel_read_def)
next
  case (Rd_bytes xs)
  let ?k = "min (unat l) (length xs)"
  from assms Rd_bytes have r: "r = of_nat ?k" "bs = take ?k xs"
    by (simp_all add: iochannel_read_def Let_def)
  have "?k \<le> unat l" by simp
  also have "unat l < 2 ^ 64" using unsigned_less [of l] by simp
  finally have "unat (of_nat ?k :: 64 word) = ?k" by (simp add: unat_of_nat)
  then show ?thesis unfolding r by simp
qed

lemma length_poke: "off + length bs \<le> length mem \<Longrightarrow> length (poke mem off bs) = length mem"
  by (simp add: poke_def)

lemma payload_index_advance:
  assumes "PSTREAM_DESCRIPTOR_SIZE \<le> index"
    and "unat (index - PSTREAM_DESCRIPTOR_SIZE) + unat r \<le> n" and "n < 2 ^ 32"
    and "r \<noteq> 0"
  shows "PSTREAM_DESCRIPTOR_SIZE < index + r"
proof -
  have s: "unat PSTREAM_DESCRIPTOR_SIZE = 12"
    by (simp add: PSTREAM_DESCRIPTOR_SIZE_def PSTREAM_DESCRIPTOR_MAX_def)
  from assms(1) have b: "12 \<le> unat index" by (simp add: word_le_nat_alt s)
  from assms(1) have a: "unat (index - PSTREAM_DESCRIPTOR_SIZE) = unat index - 12"
    by (simp add: unat_sub s)
  from a b assms(2,3) have "unat index + unat r < 2 ^ 32 + 12" by linarith
  then have "unat index + unat r < 2 ^ LENGTH(64)" by simp
  then have d: "unat (index + r) = unat index + unat r" by (simp only: unat_add_lem)
  from assms(4) have e: "0 < unat r" by (simp add: unat_gt_0)
  from b d e show ?thesis by (simp add: word_less_nat_alt s)
qed

lemma ucast_length_bound: "unat (ucast (w :: 32 word) :: 64 word) < 2 ^ 32"
proof -
  have b: "unat w < 2 ^ 32" using unsigned_less [of w] by simp
  then have "unat w < 2 ^ 64" by simp
  then have "unat (ucast w :: 64 word) = unat w"
    by (simp add: unsigned_ucast_eq take_bit_nat_eq_self_iff)
  with b show ?thesis by simp
qed

lemma read_header_complete_inv:
  "read_header_complete p = Inr p' \<Longrightarrow> read_index p = PSTREAM_DESCRIPTOR_SIZE \<Longrightarrow>
     read_packet p = None \<Longrightarrow> read_memblock p = None \<Longrightarrow> read_cursor_inv p'"
  unfolding read_header_complete_def Let_def read_cursor_inv_def packet_new_def memblock_new_def
  by (auto simp: ucast_length_bound [simplified] split: if_splits)

lemma read_store_payload_inv:
  assumes "read_store p bs = Inr p1" and "\<not> read_index p < PSTREAM_DESCRIPTOR_SIZE"
    and "read_cursor_inv p"
  shows "read_cursor_inv p1 \<and>
     (\<exists>n. unat (read_index p - PSTREAM_DESCRIPTOR_SIZE) + length bs \<le> n \<and> n < 2 ^ 32)"
  using assms unfolding read_store_def Let_def read_cursor_inv_def
  by (auto simp: length_poke split: if_splits option.splits data_ptr.splits)

lemma read_payload_inv:
  "read_payload r p = Inr p' \<Longrightarrow> \<not> read_index p < PSTREAM_DESCRIPTOR_SIZE \<Longrightarrow>
     read_cursor_inv p \<Longrightarrow> read_cursor_inv p'"
  unfolding read_payload_def Let_def read_cursor_inv_def
  by (clarsimp split: if_splits option.splits)

lemma do_read_inv:
  assumes "do_read p = Inr p'" and inv: "read_cursor_inv p"
  shows "read_cursor_inv p'"
proof (cases "dead p \<or> \<not> iochannel_is_readable (io p)")
  case True
  with assms(1) have "p' = p\<lparr>mainloop_source := False\<rparr>" by (auto simp: do_read_def Let_def)
  with inv show ?thesis by (simp add: read_cursor_inv_def)
next
  case live: False
  let ?l = "read_span_length (read_index p)
               (descriptor_get (read_descriptor p) PSTREAM_DESCRIPTOR_LENGTH)"
  obtain r bs c where io: "iochannel_read (io p) ?l = (r, bs, c)"
    by (cases "iochannel_read (io p) ?l")
  let ?p0 = "p\<lparr>mainloop_source := False, io := c\<rparr>"
  from inv have inv0: "read_cursor_inv ?p0" by (simp add: read_cursor_inv_def)
  from assms live io have rr: "read_result r bs ?p0 = Inr p'"
    by (simp add: do_read_def Let_def split: if_splits)
  show ?thesis
  proof (cases "r \<le>s 0")
    case True
    with rr have "p' = ?p0\<lparr>dead := True\<rparr>" by (simp add: read_result_def)
    with inv show ?thesis by (simp add: read_cursor_inv_def)
  next
    case pos: False
    then have r0: "r \<noteq> 0" by auto
    from rr pos obtain p1 where s: "read_store ?p0 bs = Inr p1"
      by (cases "read_store ?p0 bs") (simp_all add: read_result_def)
    from read_store_frame [OF s] have p1: "read_index p1 = read_index p" by simp
    let ?p2 = "p1\<lparr>read_index := read_index p1 + r\<rparr>"
    show ?thesis
    proof (cases "read_index p < PSTREAM_DESCRIPTOR_SIZE")
      case lt: True
      with s have p1e: "p1 = ?p0\<lparr>read_descriptor :=
          poke (read_descriptor p) (unat (read_index p)) bs\<rparr>"
        by (simp add: read_store_def)
      from lt inv have none: "read_packet p1 = None" "read_memblock p1 = None"
        unfolding p1e by (simp_all add: read_cursor_inv_def)
      from lt have "?l = PSTREAM_DESCRIPTOR_SIZE - read_index p"
        by (simp add: read_span_length_def)
      with iochannel_read_bound [OF io pos]
      have "unat r \<le> unat (PSTREAM_DESCRIPTOR_SIZE - read_index p)" by simp
      from header_span_no_straddle [OF lt this]
      have le: "read_index ?p2 \<le> PSTREAM_DESCRIPTOR_SIZE" by (simp add: p1)
      then have nlt: "\<not> PSTREAM_DESCRIPTOR_SIZE < read_index ?p2" by (simp add: not_less)
      from rr pos s nlt have "(read_index ?p2 = PSTREAM_DESCRIPTOR_SIZE \<and>
          read_header_complete ?p2 = Inr p') \<or> p' = ?p2"
        unfolding read_result_def Let_def by (simp split: if_splits)
      then show ?thesis
      proof
        assume h: "read_index ?p2 = PSTREAM_DESCRIPTOR_SIZE \<and> read_header_complete ?p2 = Inr p'"
        from read_header_complete_inv [of ?p2 p'] h none show ?thesis by simp
      next
        assume "p' = ?p2"
        with none show ?thesis by (simp add: read_cursor_inv_def)
      qed
    next
      case ge: False
      then have ge': "PSTREAM_DESCRIPTOR_SIZE \<le> read_index p" by (simp add: not_less)
      from read_store_payload_inv [OF s] ge inv0
      obtain n where i1: "read_cursor_inv p1"
        and n: "unat (read_index p - PSTREAM_DESCRIPTOR_SIZE) + length bs \<le> n" "n < 2 ^ 32"
        by auto
      from iochannel_read_length [OF io pos] n(1)
      have "unat (read_index p - PSTREAM_DESCRIPTOR_SIZE) + unat r \<le> n" by simp
      from payload_index_advance [OF ge' this n(2) r0]
      have adv: "PSTREAM_DESCRIPTOR_SIZE < read_index ?p2" by (simp add: p1)
      then have ne: "read_index ?p2 \<noteq> PSTREAM_DESCRIPTOR_SIZE"
        and nl: "\<not> read_index ?p2 < PSTREAM_DESCRIPTOR_SIZE" by auto
      from rr pos s adv ne have pl: "read_payload r ?p2 = Inr p'"
        unfolding read_result_def Let_def by simp
      from i1 nl have "read_cursor_inv ?p2" by (simp add: read_cursor_inv_def)
      from read_payload_inv [OF pl nl this] show ?thesis .
    qed
  qed
qed

lemma write_result_read_cursor:
  "write_result r p = Inr p' \<Longrightarrow> read_cursor_inv p' = read_cursor_inv p"
  unfolding write_result_def Let_def read_cursor_inv_def
  by (clarsimp split: if_splits option.splits sum.splits)

lemma prepare_next_write_item_read_cursor:
  "prepare_next_write_item p = Inr p' \<Longrightarrow> read_cursor_inv p' = read_cursor_inv p"
  unfolding prepare_next_write_item_def Let_def read_cursor_inv_def
  by (clarsimp split: if_splits list.splits option.splits)

lemma do_write_inv:
  assumes "do_write p = Inr p'" and inv: "read_cursor_inv p"
  shows "read_cursor_inv p'"
proof -
  let ?p0 = "p\<lparr>mainloop_source := False\<rparr>"
  let ?pre = "if write_current ?p0 = None then prepare_next_write_item ?p0 else Inr ?p0"
  from inv have inv0: "read_cursor_inv ?p0" by (simp add: read_cursor_inv_def)
  show ?thesis
  proof (cases "dead p \<or> \<not> iochannel_is_writable (io p)")
    case True
    with assms(1) have "p' = ?p0" by (auto simp: do_write_def Let_def)
    with inv0 show ?thesis by simp
  next
    case live: False
    with assms(1) obtain p1 where p1: "?pre = Inr p1"
      by (cases ?pre) (simp_all add: do_write_def Let_def)
    with inv0 have i1: "read_cursor_inv p1"
      by (auto dest: prepare_next_write_item_read_cursor split: if_splits)
    show ?thesis
    proof (cases "write_current p1")
      case None
      with assms(1) live p1 have "p' = p1" by (simp add: do_write_def Let_def)
      with i1 show ?thesis by simp
    next
      case (Some i)
      let ?w = "iochannel_write (io p1) (write_span_memory p1)
             (write_span_length (write_index p1)
                (descriptor_get (write_descriptor p1) PSTREAM_DESCRIPTOR_LENGTH))"
      from assms(1) live p1 Some obtain r c where w: "?w = Inr (r, c)"
        by (cases ?w) (auto simp: do_write_def Let_def)
      with assms(1) live p1 Some have wr: "write_result r (p1\<lparr>io := c\<rparr>) = Inr p'"
        by (simp add: do_write_def Let_def)
      from i1 have "read_cursor_inv (p1\<lparr>io := c\<rparr>)" by (simp add: read_cursor_inv_def)
      with write_result_read_cursor [OF wr] show ?thesis by simp
    qed
  qed
qed

lemma step_inv: "step a p = Inr p' \<Longrightarrow> read_cursor_inv p \<Longrightarrow> read_cursor_inv p'"
proof (cases a)
  case Do_write
  then show "step a p = Inr p' \<Longrightarrow> read_cursor_inv p \<Longrightarrow> read_cursor_inv p'"
    by (simp add: do_write_inv)
next
  case Do_read
  then show "step a p = Inr p' \<Longrightarrow> read_cursor_inv p \<Longrightarrow> read_cursor_inv p'"
    by (simp add: do_read_inv)
qed (auto simp: read_cursor_inv_def pstream_send_packet_def pstream_send_memblock_def
      pstream_set_send_callback_def pstream_set_recieve_packet_callback_def
      pstream_set_recieve_memblock_callback_def Let_def split: if_splits)

lemma run_inv: "run acts p = Inr p' \<Longrightarrow> read_cursor_inv p \<Longrightarrow> read_cursor_inv p'"
proof (induction acts arbitrary: p)
  case Nil
  then show ?case by simp
next
  case (Cons a acts)
  from Cons.prems(1) obtain p1 where s: "step a p = Inr p1" and r: "run acts p1 = Inr p'"
    by (auto split: sum.splits)
  from Cons.IH [OF r step_inv [OF s Cons.prems(2)]] show ?case .
qed

lemma pstream_new_inv: "read_cursor_inv (pstream_new raw c)"
  by (simp add: read_cursor_inv_def pstream_new_def PSTREAM_DESCRIPTOR_SIZE_def
      PSTREAM_DESCRIPTOR_MAX_def)

lemma no_buffer_while_reading_header:
  assumes "run acts (pstream_new raw c) = Inr p" and "read_index p < PSTREAM_DESCRIPTOR_SIZE"
  shows "read_packet p = None \<and> read_memblock p = None"
  using run_inv [OF assms(1) pstream_new_inv] assms(2) by (simp add: read_cursor_inv_def)

text \<open>
  C4. When a read completes the descriptor, bringing the read index to exactly 12:
  if the length field is above 65536 the stream is marked dead, with the trace and
  both buffer pointers as they were (nothing is allocated, no callback is called);
  otherwise exactly one buffer of that length is allocated, a packet if the channel
  field is 0 and a memblock if it is not.
\<close>

theorem descriptor_length_check:
  assumes "run acts (pstream_new raw c0) = Inr p"
    and "\<not> dead p" and "iochannel_is_readable (io p)"
    and "read_index p < PSTREAM_DESCRIPTOR_SIZE"
    and "iochannel_read (io p)
           (read_span_length (read_index p)
              (descriptor_get (read_descriptor p) PSTREAM_DESCRIPTOR_LENGTH)) = (r, bs, c)"
    and "\<not> r \<le>s 0" and "read_index p + r = PSTREAM_DESCRIPTOR_SIZE"
    and "d = poke (read_descriptor p) (unat (read_index p)) bs"
    and "len = descriptor_get d PSTREAM_DESCRIPTOR_LENGTH"
    and "p1 = p\<lparr>mainloop_source := False, io := c, read_descriptor := d,
                 read_index := PSTREAM_DESCRIPTOR_SIZE\<rparr>"
  shows "do_read p =
           Inr (if FRAME_SIZE_MAX < len then p1\<lparr>dead := True\<rparr>
                else if descriptor_get d PSTREAM_DESCRIPTOR_CHANNEL = 0
                then p1\<lparr>read_packet := Some (packet_new (ucast len)),
                        read_data := Packet_data,
                        trace := trace p @ [Packet_new (ucast len)]\<rparr>
                else p1\<lparr>read_memblock := Some (memblock_new (ucast len)),
                        read_data := Memblock_data,
                        trace := trace p @ [Memblock_new (ucast len)]\<rparr>)"
proof -
  from no_buffer_while_reading_header [OF assms(1,4)]
  have none: "read_packet p = None" "read_memblock p = None" by simp_all
  have rr: "do_read p = read_header_complete p1"
    using assms(2-10) by (simp add: do_read_def read_result_def read_store_def Let_def)
  show ?thesis
    unfolding rr using assms(8,9,10) none
    by (simp add: read_header_complete_def Let_def)
qed

theorem descriptor_length_check_witness:
  "do_read oversized =
     Inr (oversized\<lparr>mainloop_source := False, io := (io oversized)\<lparr>ch_pending := Rd_bytes []\<rparr>,
            read_descriptor := descriptor_make 65537 2 0,
            read_index := PSTREAM_DESCRIPTOR_SIZE, dead := True\<rparr>) \<and>
   do_read packet_header =
     Inr (packet_header\<lparr>mainloop_source := False,
            io := (io packet_header)\<lparr>ch_pending := Rd_bytes []\<rparr>,
            read_descriptor := descriptor_make 3 0 0,
            read_index := PSTREAM_DESCRIPTOR_SIZE,
            read_packet := Some (packet_new 3), read_data := Packet_data,
            trace := trace packet_header @ [Packet_new 3]\<rparr>) \<and>
   do_read (receiving (memblock_frame 40)) =
     Inr ((receiving (memblock_frame 40))\<lparr>mainloop_source := False,
            io := (io (receiving (memblock_frame 40)))\<lparr>ch_pending := Rd_bytes (payload 40)\<rparr>,
            read_descriptor := descriptor_make 40 2 (- 5),
            read_index := PSTREAM_DESCRIPTOR_SIZE,
            read_memblock := Some (memblock_new 40), read_data := Memblock_data,
            trace := trace (receiving (memblock_frame 40)) @ [Memblock_new 40]\<rparr>)"
proof -
  have k: "\<not> (12 :: 64 word) \<le>s 0" by (simp add: word_sle_eq)
  have n: "run [Set_recieve_memblock_callback, readable (descriptor_make 65537 2 0)]
             (pstream_new zeroed_stream idle_channel) = Inr oversized"
    "run [Set_recieve_memblock_callback, readable (descriptor_make 3 0 0)]
             (pstream_new zeroed_stream idle_channel) = Inr packet_header"
    "run [Set_recieve_memblock_callback, readable (memblock_frame 40)]
             (pstream_new zeroed_stream idle_channel) = Inr (receiving (memblock_frame 40))"
    by code_simp+
  have o: "\<not> dead oversized" "iochannel_is_readable (io oversized)"
    "read_index oversized < PSTREAM_DESCRIPTOR_SIZE"
    "iochannel_read (io oversized)
       (read_span_length (read_index oversized)
          (descriptor_get (read_descriptor oversized) PSTREAM_DESCRIPTOR_LENGTH))
     = (12, descriptor_make 65537 2 0, (io oversized)\<lparr>ch_pending := Rd_bytes []\<rparr>)"
    "read_index oversized + 12 = PSTREAM_DESCRIPTOR_SIZE"
    "descriptor_make 65537 2 0 =
       poke (read_descriptor oversized) (unat (read_index oversized)) (descriptor_make 65537 2 0)"
    "65537 = descriptor_get (descriptor_make 65537 2 0) PSTREAM_DESCRIPTOR_LENGTH"
    "FRAME_SIZE_MAX < 65537"
    by code_simp+
  from descriptor_length_check [OF n(1) o(1-4) k o(5,6,7) refl] o(8)
  have a: "do_read oversized =
     Inr (oversized\<lparr>mainloop_source := False, io := (io oversized)\<lparr>ch_pending := Rd_bytes []\<rparr>,
            read_descriptor := descriptor_make 65537 2 0,
            read_index := PSTREAM_DESCRIPTOR_SIZE, dead := True\<rparr>)"
    by simp
  have q: "\<not> dead packet_header" "iochannel_is_readable (io packet_header)"
    "read_index packet_header < PSTREAM_DESCRIPTOR_SIZE"
    "iochannel_read (io packet_header)
       (read_span_length (read_index packet_header)
          (descriptor_get (read_descriptor packet_header) PSTREAM_DESCRIPTOR_LENGTH))
     = (12, descriptor_make 3 0 0, (io packet_header)\<lparr>ch_pending := Rd_bytes []\<rparr>)"
    "read_index packet_header + 12 = PSTREAM_DESCRIPTOR_SIZE"
    "descriptor_make 3 0 0 =
       poke (read_descriptor packet_header) (unat (read_index packet_header))
         (descriptor_make 3 0 0)"
    "3 = descriptor_get (descriptor_make 3 0 0) PSTREAM_DESCRIPTOR_LENGTH"
    "\<not> FRAME_SIZE_MAX < (3 :: uint32_t)"
    "read_packet packet_header = None" "read_memblock packet_header = None"
    "descriptor_get (descriptor_make 3 0 0) PSTREAM_DESCRIPTOR_CHANNEL = 0"
    by code_simp+
  from descriptor_length_check [OF n(2) q(1-4) k q(5,6,7) refl] q(8,11)
  have b: "do_read packet_header =
     Inr (packet_header\<lparr>mainloop_source := False,
            io := (io packet_header)\<lparr>ch_pending := Rd_bytes []\<rparr>,
            read_descriptor := descriptor_make 3 0 0,
            read_index := PSTREAM_DESCRIPTOR_SIZE,
            read_packet := Some (packet_new 3), read_data := Packet_data,
            trace := trace packet_header @ [Packet_new 3]\<rparr>)"
    by simp
  let ?m = "receiving (memblock_frame 40)"
  have m: "\<not> dead ?m" "iochannel_is_readable (io ?m)"
    "read_index ?m < PSTREAM_DESCRIPTOR_SIZE"
    "iochannel_read (io ?m)
       (read_span_length (read_index ?m)
          (descriptor_get (read_descriptor ?m) PSTREAM_DESCRIPTOR_LENGTH))
     = (12, descriptor_make 40 2 (- 5), (io ?m)\<lparr>ch_pending := Rd_bytes (payload 40)\<rparr>)"
    "read_index ?m + 12 = PSTREAM_DESCRIPTOR_SIZE"
    "descriptor_make 40 2 (- 5) =
       poke (read_descriptor ?m) (unat (read_index ?m)) (descriptor_make 40 2 (- 5))"
    "40 = descriptor_get (descriptor_make 40 2 (- 5)) PSTREAM_DESCRIPTOR_LENGTH"
    "\<not> FRAME_SIZE_MAX < (40 :: uint32_t)"
    "read_packet ?m = None" "read_memblock ?m = None"
    "descriptor_get (descriptor_make 40 2 (- 5)) PSTREAM_DESCRIPTOR_CHANNEL \<noteq> 0"
    by code_simp+
  from descriptor_length_check [OF n(3) m(1-4) k m(5,6,7) refl] m(8,11)
  have c: "do_read ?m =
     Inr (?m\<lparr>mainloop_source := False,
            io := (io ?m)\<lparr>ch_pending := Rd_bytes (payload 40)\<rparr>,
            read_descriptor := descriptor_make 40 2 (- 5),
            read_index := PSTREAM_DESCRIPTOR_SIZE,
            read_memblock := Some (memblock_new 40), read_data := Memblock_data,
            trace := trace ?m @ [Memblock_new 40]\<rparr>)"
    by simp
  from a b c show ?thesis by (intro conjI)
qed

section \<open>The send callback\<close>

lemma write_result_summary:
  assumes "write_result r p = Inr p'"
  shows "send_queue p' = send_queue p \<and> trace p' = trace p @ new_events p p' \<and>
     (new_events p p' = [] \<or>
      (\<exists>ev. is_unref ev \<and> write_current p' = None \<and>
         PSTREAM_DESCRIPTOR_SIZE
           + ucast (descriptor_get (write_descriptor p') PSTREAM_DESCRIPTOR_LENGTH)
           \<le> write_index p' \<and>
         new_events p p' =
           (if send_callback p \<and> send_queue p = [] then [ev, Send_callback] else [ev])))"
proof (cases "r <s 0")
  case True
  with assms show ?thesis by (auto simp: write_result_def new_events_def)
next
  case False
  let ?p1 = "p\<lparr>write_index := write_index p + r\<rparr>"
  show ?thesis
  proof (cases "PSTREAM_DESCRIPTOR_SIZE
              + ucast (descriptor_get (write_descriptor p) PSTREAM_DESCRIPTOR_LENGTH)
            \<le> write_index p + r")
    case nc: False
    with assms False have "p' = ?p1" by (simp add: write_result_def Let_def)
    then show ?thesis by (simp add: new_events_def)
  next
    case c: True
    with assms False obtain i ev where i: "write_current p = Some i" "item_free i = Inr ev"
      unfolding write_result_def Let_def by (clarsimp split: option.splits sum.splits)
    let ?p2 = "?p1\<lparr>trace := trace p @ [ev], write_current := None\<rparr>"
    from assms False c i have p': "p' = (if send_callback p \<and> send_queue p = []
        then ?p2\<lparr>trace := trace ?p2 @ [Send_callback]\<rparr> else ?p2)"
      unfolding write_result_def Let_def queue_is_empty_def by (auto split: if_splits)
    from item_free_is_unref [OF i(2)] c show ?thesis
      unfolding p' by (auto simp: new_events_def)
  qed
qed

lemma do_write_summary:
  assumes "do_write p = Inr p'"
  shows "trace p' = trace p @ new_events p p' \<and>
     (new_events p p' = [] \<or>
      (\<exists>ev. is_unref ev \<and> write_current p' = None \<and>
         PSTREAM_DESCRIPTOR_SIZE
           + ucast (descriptor_get (write_descriptor p') PSTREAM_DESCRIPTOR_LENGTH)
           \<le> write_index p' \<and>
         new_events p p' =
           (if send_callback p \<and> send_queue p' = [] then [ev, Send_callback] else [ev])))"
proof -
  let ?p0 = "p\<lparr>mainloop_source := False\<rparr>"
  let ?pre = "if write_current ?p0 = None then prepare_next_write_item ?p0 else Inr ?p0"
  show ?thesis
  proof (cases "dead p \<or> \<not> iochannel_is_writable (io p)")
    case True
    with assms have "p' = ?p0" by (auto simp: do_write_def Let_def)
    then show ?thesis by (simp add: new_events_def)
  next
    case live: False
    with assms obtain p1 where p1: "?pre = Inr p1"
      by (cases ?pre) (simp_all add: do_write_def Let_def)
    then have f: "trace p1 = trace p" "send_callback p1 = send_callback p"
      by (auto dest: prepare_next_write_item_frame split: if_splits)
    show ?thesis
    proof (cases "write_current p1")
      case None
      with assms live p1 have "p' = p1" by (simp add: do_write_def Let_def)
      with f show ?thesis by (simp add: new_events_def)
    next
      case (Some i)
      let ?w = "iochannel_write (io p1) (write_span_memory p1)
             (write_span_length (write_index p1)
                (descriptor_get (write_descriptor p1) PSTREAM_DESCRIPTOR_LENGTH))"
      from assms live p1 Some obtain r c where w: "?w = Inr (r, c)"
        by (cases ?w) (auto simp: do_write_def Let_def)
      with assms live p1 Some have wr: "write_result r (p1\<lparr>io := c\<rparr>) = Inr p'"
        by (simp add: do_write_def Let_def)
      have ev: "new_events (p1\<lparr>io := c\<rparr>) p' = new_events p p'"
        by (simp add: new_events_def f)
      from write_result_summary [OF wr] show ?thesis
        unfolding ev by (simp add: f)
    qed
  qed
qed

text \<open>
  A packet item whose unassigned memblock field is null never completes: a call of
  \<open>do_write\<close> that returns with such an item current has released nothing and called
  no callback.
\<close>

lemma do_write_null_field_no_event:
  assumes "write_current p = Some i" and "i_type i = PSTREAM_ITEM_PACKET"
    and "chunk_memblock (i_chunk i) = None" and "do_write p = Inr p'"
  shows "new_events p p' = []"
proof -
  let ?p0 = "p\<lparr>mainloop_source := False\<rparr>"
  show ?thesis
  proof (cases "dead p \<or> \<not> iochannel_is_writable (io p)")
    case True
    with assms(4) have "p' = ?p0" by (auto simp: do_write_def Let_def)
    then show ?thesis by (simp add: new_events_def)
  next
    case live: False
    let ?w = "iochannel_write (io ?p0) (write_span_memory ?p0)
             (write_span_length (write_index ?p0)
                (descriptor_get (write_descriptor ?p0) PSTREAM_DESCRIPTOR_LENGTH))"
    from assms(1,4) live obtain r c where w: "?w = Inr (r, c)"
      by (cases ?w) (auto simp: do_write_def Let_def)
    with assms(1,4) live have wr: "write_result r (?p0\<lparr>io := c\<rparr>) = Inr p'"
      by (simp add: do_write_def Let_def)
    from assms(2,3) have f: "item_free i = Inl Assert_failed" by (simp add: item_free_def)
    from wr assms(1) f have "trace p' = trace p"
      unfolding write_result_def Let_def by (clarsimp split: if_splits)
    then show ?thesis by (simp add: new_events_def)
  qed
qed

lemmas write_model_defs =
  do_write_def write_result_def prepare_next_write_item_def write_span_length_def
  write_span_memory_def iochannel_write_def iochannel_is_writable_def item_free_def
  queue_is_empty_def queue_push_def pstream_send_packet_def pstream_set_send_callback_def
  pstream_new_def descriptor_get_def descriptor_make_def uint32_bytes_def bytes_uint32_def
  PSTREAM_DESCRIPTOR_SIZE_def PSTREAM_DESCRIPTOR_MAX_def PSTREAM_DESCRIPTOR_LENGTH_def
  the_state_def writable_def fresh_stream_def zeroed_stream_def idle_channel_def
  zeroed_item_def packet_of_def payload_def Let_def word_sless_alt

text \<open>
  C6. The specification has the send callback called once when the last queued
  item's final byte is written and the queue is empty. With the callback
  registered and one packet of 3 bytes queued, its header written and nothing else
  queued, the channel takes the last 3 bytes and the wire then holds the whole
  frame; the same call of \<open>do_write\<close> then fails the assertion of \<open>item_free\<close> on the
  item's unassigned memblock field, before the callback is reached.
\<close>

theorem send_callback_lost_on_abort:
  "send_callback last_bytes_pending \<and> send_queue last_bytes_pending = [] \<and>
   \<not> dead last_bytes_pending \<and> iochannel_is_writable (io last_bytes_pending) \<and>
   write_index last_bytes_pending = 12 \<and>
   iochannel_write (io last_bytes_pending) (write_span_memory last_bytes_pending)
     (write_span_length (write_index last_bytes_pending)
        (descriptor_get (write_descriptor last_bytes_pending) PSTREAM_DESCRIPTOR_LENGTH)) =
     Inr (3, (io last_bytes_pending)\<lparr>ch_wire := descriptor_make 3 0 0 @ payload 3,
                                       ch_room := Wr_room 0\<rparr>) \<and>
   do_write last_bytes_pending = Inl Assert_failed"
  by (simp add: last_bytes_pending_def write_model_defs)

end
